theory Spec2Isabelle
  imports Main
begin

section \<open>Python values, exceptions and the library interface\<close>

text \<open>
  The values that flow through the invocation adapter: what a wrapped member receives and
  returns. A dictionary is an association list with string keys, in insertion order. A lazy
  sequence (generator or iterator object) is given by the values it yields when it is
  drained and by the exception, if any, that ends the draining. Any other object is opaque,
  not iterable, and carries the text that \<^verbatim>\<open>str()\<close> gives for it.
\<close>

datatype exn =
    AttributeError
  | TypeError
  | KeyError
  | ValidationError
  | Exn string  \<comment> \<open>any other exception class (not derived from AttributeError), by name\<close>

datatype pyval =
    PNone
  | PBool bool
  | PInt int
  | PStr string
  | PBytes string
  | PList "pyval list"
  | PTuple "pyval list"
  | PDict "(string \<times> pyval) list"
  | PIter "pyval list" "exn option"
  | PObj string

text \<open>
  The functions of the Python standard library that the code calls and that are not modelled
  here are parameters: \<^verbatim>\<open>re.compile\<close> (\<open>None\<close> when it raises \<^verbatim>\<open>re.error\<close>),
  \<^verbatim>\<open>Pattern.match\<close> (whether a match object is returned), \<^verbatim>\<open>json.loads\<close>
  (\<open>None\<close> when it raises \<^verbatim>\<open>JSONDecodeError\<close>) and \<^verbatim>\<open>json.dumps(_, default=str)\<close>.
\<close>

record 'rx stdlib =
  re_compile :: "string \<Rightarrow> 'rx option"
  re_match :: "'rx \<Rightarrow> string \<Rightarrow> bool"
  json_loads :: "string \<Rightarrow> pyval option"
  json_dumps :: "pyval \<Rightarrow> string"

section \<open>fnmatch\<close>

text \<open>
  \<^verbatim>\<open>fnmatch.fnmatch(name, pat)\<close> of the standard library, on a platform where
  \<^verbatim>\<open>os.path.normcase\<close> is the identity: the whole name is compared with the pattern,
  \<^verbatim>\<open>*\<close> stands for any run of characters, \<^verbatim>\<open>?\<close> for one character,
  \<^verbatim>\<open>[seq]\<close> for one character of \<open>seq\<close>, \<^verbatim>\<open>[!seq]\<close> for one character
  not in \<open>seq\<close>; a \<^verbatim>\<open>[\<close> that is never closed is an ordinary character.
\<close>

text \<open>The position of the closing bracket of a character set, counted from the character
  after the opening one: a leading \<^verbatim>\<open>!\<close> and a \<^verbatim>\<open>]\<close> right after it do not close
  the set.\<close>

fun find_close :: "string \<Rightarrow> nat \<Rightarrow> nat option" where
  "find_close [] j = None"
| "find_close (c # cs) j = (if c = CHR '']'' then Some j else find_close cs (Suc j))"

definition bracket_end :: "string \<Rightarrow> nat option" where
  "bracket_end p =
     (let j1 = (if p \<noteq> [] \<and> hd p = CHR ''!'' then 1 else 0);
          j2 = (if j1 < length p \<and> p ! j1 = CHR '']'' then Suc j1 else j1)
      in find_close (drop j2 p) j2)"

text \<open>Membership in the body of a character set: \<open>a-b\<close> is a range (empty when \<open>a\<close> is
  after \<open>b\<close>), every other character stands for itself.\<close>

fun in_seq :: "string \<Rightarrow> char \<Rightarrow> bool" where
  "in_seq [] c = False"
| "in_seq (a # m # b # rest) c =
     (if m = CHR ''-'' then
        ((of_char a :: nat) \<le> of_char c \<and> (of_char c :: nat) \<le> of_char b) \<or> in_seq rest c
      else c = a \<or> in_seq (m # b # rest) c)"
| "in_seq (a # rest) c = (c = a \<or> in_seq rest c)"

definition in_charset :: "string \<Rightarrow> char \<Rightarrow> bool" where
  "in_charset stuff c =
     (if stuff \<noteq> [] \<and> hd stuff = CHR ''!'' then \<not> in_seq (tl stuff) c else in_seq stuff c)"

fun fnmatch_pat :: "string \<Rightarrow> string \<Rightarrow> bool" where
  "fnmatch_pat [] s = (s = [])"
| "fnmatch_pat (c # p) s =
     (if c = CHR ''*'' then
        fnmatch_pat p s \<or> (case s of [] \<Rightarrow> False | _ # s' \<Rightarrow> fnmatch_pat (c # p) s')
      else if c = CHR ''?'' then
        (case s of [] \<Rightarrow> False | _ # s' \<Rightarrow> fnmatch_pat p s')
      else if c = CHR ''['' then
        (case bracket_end p of
           None \<Rightarrow> (case s of [] \<Rightarrow> False | x # s' \<Rightarrow> x = c \<and> fnmatch_pat p s')
         | Some j \<Rightarrow>
             (case s of [] \<Rightarrow> False
              | x # s' \<Rightarrow> in_charset (take j p) x \<and> fnmatch_pat (drop (Suc j) p) s'))
      else (case s of [] \<Rightarrow> False | x # s' \<Rightarrow> x = c \<and> fnmatch_pat p s'))"

definition fnmatch :: "string \<Rightarrow> string \<Rightarrow> bool" where
  "fnmatch name pat = fnmatch_pat pat name"

section \<open>CrudControls: the pattern classifier\<close>

datatype crud_type = Create | Read | Update | Delete

text \<open>The loops of the source run over \<^verbatim>\<open>['create', 'read', 'update', 'delete']\<close>.\<close>

definition crud_types :: "crud_type list" where
  "crud_types = [Create, Read, Update, Delete]"

text \<open>The entry of \<^verbatim>\<open>_compiled_patterns\<close> for one bucket:
  \<^verbatim>\<open>{'regex': regex_patterns, 'glob': glob_patterns}\<close>.\<close>

record 'rx compiled =
  regex :: "'rx list"
  glob :: "string list"

text \<open>
  The fields of the pydantic model, with their declared types: \<^verbatim>\<open>Optional[bool]\<close> and
  \<^verbatim>\<open>Optional[List[str]]\<close>, and the private dictionary \<^verbatim>\<open>_compiled_patterns\<close>,
  whose keys are bucket names.
\<close>

record 'rx CrudControls =
  create :: "bool option"
  create_list :: "string list option"
  read :: "bool option"
  read_list :: "string list option"
  update :: "bool option"
  update_list :: "string list option"
  delete :: "bool option"
  delete_list :: "string list option"
  compiled_patterns :: "crud_type \<Rightarrow> 'rx compiled option"

text \<open>The module defaults. The Python literal \<^verbatim>\<open>r"^create_[^_]+$"\<close> is a raw string: its
  value is the text between the quotes.\<close>

definition default_controls :: "'rx CrudControls" where
  "default_controls =
     \<lparr> create = Some False, create_list = Some [''^create_[^_]+$'', ''create_*''],
       read = Some True, read_list = Some [''^get_[^_]+$'', ''get_*''],
       update = Some False, update_list = Some [''^update_[^_]+$'', ''update_*''],
       delete = Some False, delete_list = Some [''^delete_[^_]+$'', ''delete_*''],
       compiled_patterns = Map.empty \<rparr>"

text \<open>\<^verbatim>\<open>getattr(self, crud_type, False)\<close> and \<^verbatim>\<open>getattr(self, f"{crud_type}_list", [])\<close>
  for the four bucket names: the attribute exists, so the default of \<^verbatim>\<open>getattr\<close> is never
  used and a field that holds \<^verbatim>\<open>None\<close> is returned as \<^verbatim>\<open>None\<close>.\<close>

fun flag_of :: "'rx CrudControls \<Rightarrow> crud_type \<Rightarrow> bool option" where
  "flag_of cc Create = create cc"
| "flag_of cc Read = read cc"
| "flag_of cc Update = update cc"
| "flag_of cc Delete = delete cc"

fun list_of :: "'rx CrudControls \<Rightarrow> crud_type \<Rightarrow> string list option" where
  "list_of cc Create = create_list cc"
| "list_of cc Read = read_list cc"
| "list_of cc Update = update_list cc"
| "list_of cc Delete = delete_list cc"

text \<open>Truth value of an \<^verbatim>\<open>Optional[bool]\<close>: \<^verbatim>\<open>None\<close> is false.\<close>

fun truthy :: "bool option \<Rightarrow> bool" where
  "truthy None = False"
| "truthy (Some b) = b"

definition regex_chars :: string where
  "regex_chars = ''.^$*+?{}[]|'' @ [CHR 0x5C] @ ''()''"

text \<open>\<^verbatim>\<open>pattern.startswith('r"') or pattern.startswith("r'")\<close>.\<close>

definition has_r_marker :: "string \<Rightarrow> bool" where
  "has_r_marker pattern =
     (take 2 pattern = [CHR ''r'', CHR 0x22] \<or> take 2 pattern = [CHR ''r'', CHR 0x27])"

definition is_regex_pattern :: "string \<Rightarrow> bool" where
  "is_regex_pattern pattern =
     (has_r_marker pattern \<or> list_ex (\<lambda>c. c \<in> set pattern) regex_chars)"

text \<open>The text handed to \<^verbatim>\<open>re.compile\<close>: \<^verbatim>\<open>pattern[2:-1]\<close> for a marked pattern.\<close>

definition regex_text :: "string \<Rightarrow> string" where
  "regex_text pattern = (if has_r_marker pattern then butlast (drop 2 pattern) else pattern)"

text \<open>The inner loop of \<^verbatim>\<open>compile_patterns\<close> over one pattern list, with the two lists
  it appends to.\<close>

fun compile_list :: "'rx stdlib \<Rightarrow> string list \<Rightarrow> 'rx list \<Rightarrow> string list \<Rightarrow> 'rx compiled" where
  "compile_list lib [] regex_patterns glob_patterns =
     \<lparr> regex = regex_patterns, glob = glob_patterns \<rparr>"
| "compile_list lib (pattern # rest) regex_patterns glob_patterns =
     (if is_regex_pattern pattern then
        (case re_compile lib (regex_text pattern) of
           Some rx \<Rightarrow> compile_list lib rest (regex_patterns @ [rx]) glob_patterns
         | None \<Rightarrow> compile_list lib rest regex_patterns (glob_patterns @ [regex_text pattern]))
      else compile_list lib rest regex_patterns (glob_patterns @ [pattern]))"

text \<open>The outer loop over the buckets. Iterating over a list that is \<^verbatim>\<open>None\<close> raises
  \<^verbatim>\<open>TypeError\<close>; the entries written before that stay in the dictionary.\<close>

fun compile_loop ::
  "'rx stdlib \<Rightarrow> crud_type list \<Rightarrow> 'rx CrudControls \<Rightarrow> (exn + unit) \<times> 'rx CrudControls" where
  "compile_loop lib [] cc = (Inr (), cc)"
| "compile_loop lib (ct # cts) cc =
     (case list_of cc ct of
        None \<Rightarrow> (Inl TypeError, cc)
      | Some pattern_list \<Rightarrow>
          compile_loop lib cts
            (cc\<lparr>compiled_patterns :=
                 (compiled_patterns cc)(ct \<mapsto> compile_list lib pattern_list [] [])\<rparr>))"

definition compile_patterns ::
  "'rx stdlib \<Rightarrow> 'rx CrudControls \<Rightarrow> (exn + unit) \<times> 'rx CrudControls" where
  "compile_patterns lib cc = compile_loop lib crud_types (cc\<lparr>compiled_patterns := Map.empty\<rparr>)"

text \<open>\<^verbatim>\<open>not self._compiled_patterns\<close>: the dictionary has no entry.\<close>

definition cache_empty :: "'rx CrudControls \<Rightarrow> bool" where
  "cache_empty cc = list_all (\<lambda>ct. compiled_patterns cc ct = None) crud_types"

definition matches_pattern ::
  "'rx stdlib \<Rightarrow> 'rx CrudControls \<Rightarrow> string \<Rightarrow> crud_type \<Rightarrow> (exn + bool) \<times> 'rx CrudControls" where
  "matches_pattern lib cc func_name ct =
     (case (if cache_empty cc then compile_patterns lib cc else (Inr (), cc)) of
        (Inl e, cc1) \<Rightarrow> (Inl e, cc1)
      | (Inr _, cc1) \<Rightarrow>
          if \<not> truthy (flag_of cc1 ct) then (Inr False, cc1)
          else
            let patterns = (case compiled_patterns cc1 ct of
                              None \<Rightarrow> \<lparr> regex = [], glob = [] \<rparr>
                            | Some c \<Rightarrow> c)
            in if list_ex (\<lambda>pattern. re_match lib pattern func_name) (regex patterns)
               then (Inr True, cc1)
               else if list_ex (\<lambda>pattern. fnmatch func_name pattern) (glob patterns)
               then (Inr True, cc1)
               else (Inr False, cc1))"

section \<open>The client, AutoTool and AutoToolWrapper\<close>

text \<open>
  A member of the wrapped object as the code sees it: whether \<^verbatim>\<open>callable()\<close> holds of it,
  its \<^verbatim>\<open>__doc__\<close> (\<^verbatim>\<open>None\<close> when it has no documentation text) and what calling it
  with positional and named arguments gives: a value, or the exception it raises. The
  object is the list of its members in the order of \<^verbatim>\<open>dir()\<close>. The \<^verbatim>\<open>client\<close> field holds
  any value (\<^verbatim>\<open>Any\<close>); the code subscripts it with \<^verbatim>\<open>"client"\<close>.
\<close>

record attribute =
  callable :: bool
  doc :: "string option"
  body :: "pyval list \<Rightarrow> (string \<times> pyval) list \<Rightarrow> exn + pyval"

type_synonym pyobject = "(string \<times> attribute) list"

datatype client_holder =
    Holder "(string \<times> pyobject) list"  \<comment> \<open>a dictionary\<close>
  | NotSubscriptable  \<comment> \<open>a value without \<^verbatim>\<open>__getitem__\<close>\<close>

fun getitem :: "client_holder \<Rightarrow> string \<Rightarrow> exn + pyobject" where
  "getitem NotSubscriptable k = Inl TypeError"
| "getitem (Holder d) k = (case map_of d k of None \<Rightarrow> Inl KeyError | Some obj \<Rightarrow> Inr obj)"

definition getattr :: "pyobject \<Rightarrow> string \<Rightarrow> exn + attribute" where
  "getattr obj n = (case map_of obj n of None \<Rightarrow> Inl AttributeError | Some a \<Rightarrow> Inr a)"

definition dir :: "pyobject \<Rightarrow> string list" where
  "dir obj = map fst obj"

record AutoTool =
  client :: client_holder
  name :: string
  description :: string

text \<open>Construction of the pydantic model \<^verbatim>\<open>AutoTool\<close>: the field \<^verbatim>\<open>description: str\<close>
  does not accept \<^verbatim>\<open>None\<close>.\<close>

definition AutoTool_init :: "client_holder \<Rightarrow> string \<Rightarrow> string option \<Rightarrow> exn + AutoTool" where
  "AutoTool_init c n d =
     (case d of
        None \<Rightarrow> Inl ValidationError
      | Some text \<Rightarrow> Inr \<lparr> client = c, name = n, description = text \<rparr>)"

subsection \<open>The invocation adapter\<close>

definition normalize_input :: "'rx stdlib \<Rightarrow> pyval \<Rightarrow> pyval" where
  "normalize_input lib tool_input =
     (case tool_input of
        PDict d \<Rightarrow> PDict d
      | PStr s \<Rightarrow> (case json_loads lib s of None \<Rightarrow> PDict [] | Some v \<Rightarrow> v)
      | _ \<Rightarrow> PDict [])"

text \<open>
  \<^verbatim>\<open>func(*args, **params, **kwargs)\<close>: unpacking a value that is not a mapping raises
  \<^verbatim>\<open>TypeError\<close>, a keyword given by both mappings raises \<^verbatim>\<open>TypeError\<close>, and so does
  calling a value that is not callable; otherwise the member runs with the positional
  arguments and the named arguments of both mappings, in that order.
\<close>

definition call :: "attribute \<Rightarrow> pyval list \<Rightarrow> pyval \<Rightarrow> (string \<times> pyval) list \<Rightarrow> exn + pyval" where
  "call func args params kwargs =
     (case params of
        PDict d \<Rightarrow>
          if list_ex (\<lambda>k. k \<in> set (map fst kwargs)) (map fst d) then Inl TypeError
          else if \<not> callable func then Inl TypeError
          else body func args (d @ kwargs)
      | _ \<Rightarrow> Inl TypeError)"

text \<open>The result, made ready for \<^verbatim>\<open>json.dumps\<close>: a dictionary stays; an iterable that
  is neither \<^verbatim>\<open>str\<close> nor \<^verbatim>\<open>bytes\<close> goes through \<^verbatim>\<open>list()\<close>, which drains a lazy
  sequence and raises what the sequence raises; anything else stays.\<close>

fun normalize_result :: "pyval \<Rightarrow> exn + pyval" where
  "normalize_result (PDict d) = Inr (PDict d)"
| "normalize_result (PList vs) = Inr (PList vs)"
| "normalize_result (PTuple vs) = Inr (PList vs)"
| "normalize_result (PIter vs None) = Inr (PList vs)"
| "normalize_result (PIter vs (Some e)) = Inl e"
| "normalize_result v = Inr v"

text \<open>The body of the \<^verbatim>\<open>try\<close> block of \<^verbatim>\<open>_run\<close>.\<close>

definition run_body ::
  "'rx stdlib \<Rightarrow> AutoTool \<Rightarrow> pyval \<Rightarrow> pyval list \<Rightarrow> (string \<times> pyval) list \<Rightarrow> exn + string" where
  "run_body lib tool tool_input args kwargs =
     (let params = normalize_input lib tool_input in
      case getitem (client tool) ''client'' of
        Inl e \<Rightarrow> Inl e
      | Inr obj \<Rightarrow>
         (case getattr obj (name tool) of
            Inl e \<Rightarrow> Inl e
          | Inr func \<Rightarrow>
             (case call func args params kwargs of
                Inl e \<Rightarrow> Inl e
              | Inr result \<Rightarrow>
                 (case normalize_result result of
                    Inl e \<Rightarrow> Inl e
                  | Inr result' \<Rightarrow> Inr (json_dumps lib result')))))"

text \<open>\<^verbatim>\<open>_run\<close>: the \<^verbatim>\<open>try\<close> block with its handler \<^verbatim>\<open>except AttributeError\<close>.\<close>

definition run ::
  "'rx stdlib \<Rightarrow> AutoTool \<Rightarrow> pyval \<Rightarrow> pyval list \<Rightarrow> (string \<times> pyval) list \<Rightarrow> exn + string" where
  "run lib tool tool_input args kwargs =
     (case run_body lib tool tool_input args kwargs of
        Inl AttributeError \<Rightarrow> Inr (''Invalid function name: '' @ name tool)
      | r \<Rightarrow> r)"

subsection \<open>The operation builder\<close>

record 'rx AutoToolWrapper =
  wrapper_client :: client_holder
  operations :: "AutoTool list"
  crud_controls :: "'rx CrudControls"

definition sdk_functions :: "pyobject \<Rightarrow> string list" where
  "sdk_functions obj =
     filter (\<lambda>func. (case getattr obj func of Inr a \<Rightarrow> callable a | Inl _ \<Rightarrow> False)
                     \<and> take 1 func \<noteq> ''_'')
            (dir obj)"

text \<open>\<^verbatim>\<open>any(self.crud_controls.matches_pattern(func_name, crud_type) for crud_type in ...)\<close>:
  the buckets are asked in order until one approves.\<close>

fun should_add ::
  "'rx stdlib \<Rightarrow> 'rx CrudControls \<Rightarrow> string \<Rightarrow> crud_type list \<Rightarrow> (exn + bool) \<times> 'rx CrudControls" where
  "should_add lib cc func_name [] = (Inr False, cc)"
| "should_add lib cc func_name (ct # cts) =
     (case matches_pattern lib cc func_name ct of
        (Inl e, cc1) \<Rightarrow> (Inl e, cc1)
      | (Inr True, cc1) \<Rightarrow> (Inr True, cc1)
      | (Inr False, cc1) \<Rightarrow> should_add lib cc1 func_name cts)"

text \<open>The loop of \<^verbatim>\<open>_build_operations\<close> over \<^verbatim>\<open>sdk_functions\<close>: the AutoTool is built
  for every name, before the buckets are asked. The source evaluates
  \<^verbatim>\<open>self.client["client"]\<close> again at every use; the value is the same each time and is
  passed along here.\<close>

fun build_loop ::
  "'rx stdlib \<Rightarrow> client_holder \<Rightarrow> pyobject \<Rightarrow> string list \<Rightarrow> AutoTool list \<Rightarrow> 'rx CrudControls
     \<Rightarrow> (exn + AutoTool list) \<times> 'rx CrudControls" where
  "build_loop lib h obj [] ops cc = (Inr ops, cc)"
| "build_loop lib h obj (func_name # rest) ops cc =
     (case getattr obj func_name of
        Inl e \<Rightarrow> (Inl e, cc)
      | Inr func \<Rightarrow>
         (case AutoTool_init h func_name (doc func) of
            Inl e \<Rightarrow> (Inl e, cc)
          | Inr operation \<Rightarrow>
             (case should_add lib cc func_name crud_types of
                (Inl e, cc1) \<Rightarrow> (Inl e, cc1)
              | (Inr add, cc1) \<Rightarrow>
                  build_loop lib h obj rest (if add then ops @ [operation] else ops) cc1)))"

definition build_operations ::
  "'rx stdlib \<Rightarrow> client_holder \<Rightarrow> 'rx CrudControls \<Rightarrow> (exn + AutoTool list) \<times> 'rx CrudControls" where
  "build_operations lib h cc =
     (case getitem h ''client'' of
        Inl e \<Rightarrow> (Inl e, cc)
      | Inr obj \<Rightarrow> build_loop lib h obj (sdk_functions obj) [] cc)"

text \<open>\<^verbatim>\<open>AutoToolWrapper.__init__\<close>: an exception of \<^verbatim>\<open>_build_operations\<close> leaves the
  constructor, and no wrapper exists.\<close>

definition AutoToolWrapper_init ::
  "'rx stdlib \<Rightarrow> client_holder \<Rightarrow> 'rx CrudControls \<Rightarrow> exn + 'rx AutoToolWrapper" where
  "AutoToolWrapper_init lib h cc =
     (case build_operations lib h cc of
        (Inl e, _) \<Rightarrow> Inl e
      | (Inr ops, cc1) \<Rightarrow> Inr \<lparr> wrapper_client = h, operations = ops, crud_controls = cc1 \<rparr>)"

section \<open>A sample library and the test double of the unit tests\<close>

text \<open>
  Concrete runs need concrete library functions. The sample below covers a fragment of each:
  for regular expressions, a pattern that starts with a repetition operator is rejected
  (\<^verbatim>\<open>re.error\<close>: nothing to repeat) and a pattern of ordinary characters matches the names
  that start with it; for JSON, the documents made of \<^verbatim>\<open>null\<close>, \<^verbatim>\<open>true\<close>,
  \<^verbatim>\<open>false\<close>, integers, strings of printable ASCII characters with the escapes
  \<^verbatim>\<open>\"\<close> and \<^verbatim>\<open>\\\<close>, arrays and objects, written with the separators that
  \<^verbatim>\<open>json.dumps\<close> uses. The examples stay inside these fragments.
\<close>

definition sample_re_compile :: "string \<Rightarrow> string option" where
  "sample_re_compile p = (if p \<noteq> [] \<and> hd p \<in> set ''*+?'' then None else Some p)"

definition sample_re_match :: "string \<Rightarrow> string \<Rightarrow> bool" where
  "sample_re_match rx s = (take (length rx) s = rx)"

definition dquote :: char where
  "dquote = CHR 0x22"

definition backslash :: char where
  "backslash = CHR 0x5C"

fun digits :: "nat \<Rightarrow> string" where
  "digits n =
     (if n < 10 then [char_of (48 + n)] else digits (n div 10) @ [char_of (48 + n mod 10)])"

definition dumps_int :: "int \<Rightarrow> string" where
  "dumps_int i = (if i < 0 then CHR ''-'' # digits (nat (- i)) else digits (nat i))"

fun escape :: "string \<Rightarrow> string" where
  "escape [] = []"
| "escape (c # cs) =
     (if c = dquote \<or> c = backslash then backslash # c # escape cs else c # escape cs)"

definition dumps_str :: "string \<Rightarrow> string" where
  "dumps_str s = dquote # escape s @ [dquote]"

fun join :: "string \<Rightarrow> string list \<Rightarrow> string" where
  "join sep [] = []"
| "join sep [x] = x"
| "join sep (x # y # zs) = x @ sep @ join sep (y # zs)"

fun sample_dumps :: "pyval \<Rightarrow> string" where
  "sample_dumps PNone = ''null''"
| "sample_dumps (PBool b) = (if b then ''true'' else ''false'')"
| "sample_dumps (PInt i) = dumps_int i"
| "sample_dumps (PStr s) = dumps_str s"
| "sample_dumps (PList vs) = ''['' @ join '', '' (map sample_dumps vs) @ '']''"
| "sample_dumps (PTuple vs) = ''['' @ join '', '' (map sample_dumps vs) @ '']''"
| "sample_dumps (PDict kvs) =
     ''{'' @ join '', '' (map (\<lambda>(k, v). dumps_str k @ '': '' @ sample_dumps v) kvs) @ ''}''"
| "sample_dumps (PBytes b) = dumps_str (''b'' @ [CHR 0x27] @ b @ [CHR 0x27])"
| "sample_dumps (PIter vs e) = dumps_str ''<generator object>''"
| "sample_dumps (PObj text) = dumps_str text"

fun skip_ws :: "string \<Rightarrow> string" where
  "skip_ws [] = []"
| "skip_ws (c # cs) = (if c \<in> set [CHR '' '', CHR 0x0A, CHR 0x0D, CHR 0x09] then skip_ws cs else c # cs)"

definition is_digit :: "char \<Rightarrow> bool" where
  "is_digit c = (48 \<le> (of_char c :: nat) \<and> (of_char c :: nat) \<le> 57)"

fun loads_digits :: "string \<Rightarrow> nat \<Rightarrow> nat \<times> string" where
  "loads_digits [] acc = (acc, [])"
| "loads_digits (c # cs) acc =
     (if is_digit c then loads_digits cs (10 * acc + (of_char c - 48)) else (acc, c # cs))"

fun loads_str :: "string \<Rightarrow> string \<Rightarrow> (string \<times> string) option" where
  "loads_str [] acc = None"
| "loads_str [c] acc = (if c = dquote then Some (acc, []) else None)"
| "loads_str (c # d # cs) acc =
     (if c = dquote then Some (acc, d # cs)
      else if c = backslash then
        (if d = dquote \<or> d = backslash then loads_str cs (acc @ [d]) else None)
      else loads_str (d # cs) (acc @ [c]))"

text \<open>The recursive descent, bounded by the length of the text.\<close>

fun loads_value :: "nat \<Rightarrow> string \<Rightarrow> (pyval \<times> string) option"
  and loads_items :: "nat \<Rightarrow> string \<Rightarrow> pyval list \<Rightarrow> (pyval list \<times> string) option"
  and loads_members ::
    "nat \<Rightarrow> string \<Rightarrow> (string \<times> pyval) list \<Rightarrow> ((string \<times> pyval) list \<times> string) option" where
  "loads_value 0 s = None"
| "loads_value (Suc n) s =
     (let t = skip_ws s in
      if take 4 t = ''null'' then Some (PNone, drop 4 t)
      else if take 4 t = ''true'' then Some (PBool True, drop 4 t)
      else if take 5 t = ''false'' then Some (PBool False, drop 5 t)
      else if t = [] then None
      else if hd t = dquote then
        (case loads_str (tl t) [] of None \<Rightarrow> None | Some (x, r) \<Rightarrow> Some (PStr x, r))
      else if is_digit (hd t) then
        (case loads_digits t 0 of (k, r) \<Rightarrow> Some (PInt (int k), r))
      else if hd t = CHR ''-'' \<and> tl t \<noteq> [] \<and> is_digit (hd (tl t)) then
        (case loads_digits (tl t) 0 of (k, r) \<Rightarrow> Some (PInt (- int k), r))
      else if hd t = CHR ''['' then
        (if take 1 (skip_ws (tl t)) = '']'' then Some (PList [], tl (skip_ws (tl t)))
         else (case loads_items n (tl t) [] of
                 None \<Rightarrow> None | Some (vs, r) \<Rightarrow> Some (PList vs, r)))
      else if hd t = CHR ''{'' then
        (if take 1 (skip_ws (tl t)) = ''}'' then Some (PDict [], tl (skip_ws (tl t)))
         else (case loads_members n (tl t) [] of
                 None \<Rightarrow> None | Some (kvs, r) \<Rightarrow> Some (PDict kvs, r)))
      else None)"
| "loads_items 0 s acc = None"
| "loads_items (Suc n) s acc =
     (case loads_value n s of
        None \<Rightarrow> None
      | Some (v, r) \<Rightarrow>
          (let t = skip_ws r in
           if take 1 t = '','' then loads_items n (tl t) (acc @ [v])
           else if take 1 t = '']'' then Some (acc @ [v], tl t)
           else None))"
| "loads_members 0 s acc = None"
| "loads_members (Suc n) s acc =
     (let t = skip_ws s in
      if take 1 t \<noteq> [dquote] then None
      else
        (case loads_str (tl t) [] of
           None \<Rightarrow> None
         | Some (k, r) \<Rightarrow>
             (let u = skip_ws r in
              if take 1 u \<noteq> '':'' then None
              else
                (case loads_value n (tl u) of
                   None \<Rightarrow> None
                 | Some (v, r') \<Rightarrow>
                     (let w = skip_ws r' in
                      if take 1 w = '','' then loads_members n (tl w) (acc @ [(k, v)])
                      else if take 1 w = ''}'' then Some (acc @ [(k, v)], tl w)
                      else None)))))"

definition sample_loads :: "string \<Rightarrow> pyval option" where
  "sample_loads s =
     (case loads_value (Suc (length s)) s of
        None \<Rightarrow> None
      | Some (v, r) \<Rightarrow> if skip_ws r = [] then Some v else None)"

definition sample_lib :: "string stdlib" where
  "sample_lib =
     \<lparr> re_compile = sample_re_compile, re_match = sample_re_match,
       json_loads = sample_loads, json_dumps = sample_dumps \<rparr>"

text \<open>
  The class \<^verbatim>\<open>FakeSdk\<close> of the unit tests. Its methods take \<^verbatim>\<open>thing_id\<close> and return
  \<^verbatim>\<open>_dummy_return(thing_id)\<close>; \<^verbatim>\<open>get_things\<close> takes nothing;
  \<^verbatim>\<open>get_things_generator(start_id, count)\<close> is a generator, which yields
  \<^verbatim>\<open>_dummy_return(start_id + i)\<close> for \<open>i\<close> below \<open>count\<close> (and fails with
  \<^verbatim>\<open>TypeError\<close> while it is drained when the two are not integers). A call whose
  arguments do not fit the parameters raises \<^verbatim>\<open>TypeError\<close>. The object is listed in the
  order of \<^verbatim>\<open>dir()\<close>, with two of its special members and its private method.
\<close>

definition bind_params :: "string list \<Rightarrow> pyval list \<Rightarrow> (string \<times> pyval) list \<Rightarrow> pyval list option" where
  "bind_params names args kw =
     (if length names < length args then None
      else
        (let rest = drop (length args) names in
         if distinct (map fst kw) \<and> set (map fst kw) = set rest
         then Some (args @ map (\<lambda>n. case map_of kw n of Some v \<Rightarrow> v | None \<Rightarrow> PNone) rest)
         else None))"

definition dummy_return :: "pyval \<Rightarrow> pyval" where
  "dummy_return thing_id =
     PDict [(''status'', PInt 200), (''response'', PDict [(''id'', thing_id)])]"

definition thing_method :: "string \<Rightarrow> attribute" where
  "thing_method text =
     \<lparr> callable = True, doc = Some text,
       body = (\<lambda>args kw. case bind_params [''thing_id''] args kw of
                            Some [thing_id] \<Rightarrow> Inr (dummy_return thing_id)
                          | _ \<Rightarrow> Inl TypeError) \<rparr>"

definition get_things :: attribute where
  "get_things =
     \<lparr> callable = True, doc = Some ''Gets Thing'',
       body = (\<lambda>args kw. case bind_params [] args kw of
                            Some [] \<Rightarrow> Inr (dummy_return (PInt 123))
                          | _ \<Rightarrow> Inl TypeError) \<rparr>"

definition get_things_generator :: attribute where
  "get_things_generator =
     \<lparr> callable = True, doc = Some ''Generates multiple Things'',
       body = (\<lambda>args kw. case bind_params [''start_id'', ''count''] args kw of
                            Some [PInt start_id, PInt count] \<Rightarrow>
                              Inr (PIter (map (\<lambda>i. dummy_return (PInt (start_id + int i)))
                                            [0 ..< nat count]) None)
                          | Some [_, _] \<Rightarrow> Inr (PIter [] (Some TypeError))
                          | _ \<Rightarrow> Inl TypeError) \<rparr>"

definition plain_value :: attribute where
  "plain_value = \<lparr> callable = False, doc = None, body = (\<lambda>args kw. Inl TypeError) \<rparr>"

definition initializer :: attribute where
  "initializer =
     \<lparr> callable = True, doc = Some ''Initialize self.'', body = (\<lambda>args kw. Inr PNone) \<rparr>"

definition FakeSdk :: pyobject where
  "FakeSdk =
     [(''__doc__'', plain_value),
      (''__init__'', initializer),
      (''_dummy_return'', thing_method ''Hidden, never called directly. Does Things''),
      (''confabulate_thing'', thing_method ''Confabulates Thing -- example of custom verbs''),
      (''create_thing'', thing_method ''Creates Thing''),
      (''delete_thing'', thing_method ''Deletes Thing''),
      (''get_thing'', thing_method ''Gets Thing''),
      (''get_things'', get_things),
      (''get_things_generator'', get_things_generator),
      (''post_thing'', thing_method ''Posts Thing''),
      (''put_thing'', thing_method ''Puts Thing''),
      (''update_thing'', thing_method ''Updates Thing'')]"

definition fake_client :: client_holder where
  "fake_client = Holder [(''client'', FakeSdk)]"

text \<open>\<^verbatim>\<open>list_crud_controls\<close> of the unit tests.\<close>

definition list_crud_controls :: "'rx CrudControls" where
  "list_crud_controls =
     default_controls\<lparr> read := Some True, read_list := Some [''get_thing''],
                        create := Some False, update := Some False, delete := Some False \<rparr>"

section \<open>Notions used in the statements\<close>

text \<open>Every bucket has a pattern list: none of the four list fields is \<^verbatim>\<open>None\<close>.\<close>

definition lists_present :: "'rx CrudControls \<Rightarrow> bool" where
  "lists_present cc = list_all (\<lambda>ct. list_of cc ct \<noteq> None) crud_types"

text \<open>What one run of the compilation stores for a bucket, and the decision that the stored
  entry gives for a name.\<close>

definition compiled_of :: "'rx stdlib \<Rightarrow> 'rx CrudControls \<Rightarrow> crud_type \<Rightarrow> 'rx compiled option" where
  "compiled_of lib cc ct = map_option (\<lambda>pattern_list. compile_list lib pattern_list [] []) (list_of cc ct)"

definition approved_by :: "'rx stdlib \<Rightarrow> 'rx CrudControls \<Rightarrow> string \<Rightarrow> crud_type \<Rightarrow> bool" where
  "approved_by lib cc n ct =
     (truthy (flag_of cc ct) \<and>
      (case compiled_of lib cc ct of
         None \<Rightarrow> False
       | Some c \<Rightarrow> list_ex (\<lambda>rx. re_match lib rx n) (regex c) \<or> list_ex (\<lambda>g. fnmatch n g) (glob c)))"

definition compiled_state :: "'rx stdlib \<Rightarrow> 'rx CrudControls \<Rightarrow> 'rx CrudControls" where
  "compiled_state lib cc = cc\<lparr>compiled_patterns := compiled_of lib cc\<rparr>"

text \<open>The states the builder sees: the controls as configured, not yet compiled, or the same
  controls with their compiled cache.\<close>

definition in_sync :: "'rx stdlib \<Rightarrow> 'rx CrudControls \<Rightarrow> 'rx CrudControls \<Rightarrow> bool" where
  "in_sync lib cc st = ((st = cc \<and> cache_empty cc) \<or> st = compiled_state lib cc)"

text \<open>A pattern that carries the marker: the text \<^verbatim>\<open>r"*_thing"\<close>, quotes included.\<close>

definition marked_pattern :: string where
  "marked_pattern = [CHR ''r'', CHR 0x22] @ ''*_thing'' @ [CHR 0x22]"

text \<open>A member that has documentation text, and the AutoTool that the builder makes for
  the member of a given name.\<close>

definition documented :: "pyobject \<Rightarrow> string \<Rightarrow> bool" where
  "documented obj n = (case getattr obj n of Inr a \<Rightarrow> doc a \<noteq> None | Inl _ \<Rightarrow> False)"

definition operation_for :: "client_holder \<Rightarrow> pyobject \<Rightarrow> string \<Rightarrow> AutoTool" where
  "operation_for h obj n =
     \<lparr> client = h, name = n,
       description = (case getattr obj n of
                        Inr a \<Rightarrow> (case doc a of Some text \<Rightarrow> text | None \<Rightarrow> [])
                      | Inl _ \<Rightarrow> []) \<rparr>"

text \<open>An object that exposes no public callable member, and one whose only method has no
  documentation text.\<close>

definition bare_object :: pyobject where
  "bare_object = [(''__doc__'', plain_value)]"

definition undocumented_sdk :: pyobject where
  "undocumented_sdk = [(''get_thing'', (thing_method [])\<lparr>doc := None\<rparr>)]"

text \<open>The tool that the wrapper makes for a member of the test double, and a tool for a
  client whose only method, \<^verbatim>\<open>get_thing\<close>, raises a given exception in its body.\<close>

definition fake_tool :: "string \<Rightarrow> AutoTool" where
  "fake_tool n = operation_for fake_client FakeSdk n"

definition raising_method :: "exn \<Rightarrow> attribute" where
  "raising_method e = \<lparr> callable = True, doc = Some ''Gets Thing'', body = (\<lambda>args kw. Inl e) \<rparr>"

definition raising_tool :: "exn \<Rightarrow> AutoTool" where
  "raising_tool e =
     \<lparr> client = Holder [(''client'', [(''get_thing'', raising_method e)])],
       name = ''get_thing'', description = ''Gets Thing'' \<rparr>"

section \<open>The classifier\<close>

lemma flag_of_cache [simp]: "flag_of (cc\<lparr>compiled_patterns := c\<rparr>) ct = flag_of cc ct"
  by (cases ct) simp_all

lemma list_of_cache [simp]: "list_of (cc\<lparr>compiled_patterns := c\<rparr>) ct = list_of cc ct"
  by (cases ct) simp_all

lemma in_crud_types [simp]: "ct \<in> set crud_types"
  by (cases ct) (simp_all add: crud_types_def)

lemma set_crud_types: "set crud_types = UNIV"
  by (rule set_eqI) simp

lemma lists_present_iff: "lists_present cc \<longleftrightarrow> (\<forall>ct. list_of cc ct \<noteq> None)"
  by (simp add: lists_present_def list_all_iff set_crud_types)

lemma cache_empty_iff: "cache_empty cc \<longleftrightarrow> compiled_patterns cc = Map.empty"
  by (simp add: cache_empty_def list_all_iff fun_eq_iff set_crud_types)

text \<open>The loop changes nothing but the cache.\<close>

lemma compile_loop_frame:
  "snd (compile_loop lib cts cc) = cc\<lparr>compiled_patterns := compiled_patterns (snd (compile_loop lib cts cc))\<rparr>"
proof (induction cts arbitrary: cc)
  case Nil
  show ?case by simp
next
  case (Cons ct cts)
  show ?case
  proof (cases "list_of cc ct")
    case None
    then show ?thesis by simp
  next
    case (Some pl)
    let ?cc' = "cc\<lparr>compiled_patterns := (compiled_patterns cc)(ct \<mapsto> compile_list lib pl [] [])\<rparr>"
    have "snd (compile_loop lib cts ?cc') = ?cc'\<lparr>compiled_patterns := compiled_patterns (snd (compile_loop lib cts ?cc'))\<rparr>"
      by (rule Cons.IH)
    then have "snd (compile_loop lib cts ?cc') = cc\<lparr>compiled_patterns := compiled_patterns (snd (compile_loop lib cts ?cc'))\<rparr>"
      by simp
    with Some show ?thesis by simp
  qed
qed

lemma compile_loop_exn: "fst (compile_loop lib cts cc) = Inl e \<Longrightarrow> e = TypeError"
proof (induction cts arbitrary: cc)
  case Nil
  then show ?case by simp
next
  case (Cons ct cts)
  then show ?case by (cases "list_of cc ct") auto
qed

lemma compile_loop_ok:
  "\<forall>ct \<in> set cts. list_of cc ct \<noteq> None \<Longrightarrow>
   compile_loop lib cts cc =
     (Inr (), cc\<lparr>compiled_patterns := (\<lambda>ct. if ct \<in> set cts then compiled_of lib cc ct else compiled_patterns cc ct)\<rparr>)"
proof (induction cts arbitrary: cc)
  case Nil
  then show ?case by simp
next
  case (Cons ct cts)
  then obtain pl where pl: "list_of cc ct = Some pl" by auto
  let ?cc' = "cc\<lparr>compiled_patterns := (compiled_patterns cc)(ct \<mapsto> compile_list lib pl [] [])\<rparr>"
  have "\<forall>ct \<in> set cts. list_of ?cc' ct \<noteq> None" using Cons.prems by simp
  from Cons.IH [OF this] pl show ?case
    by (simp add: compiled_of_def fun_eq_iff)
qed

lemma compile_patterns_ok:
  assumes "lists_present cc"
  shows "compile_patterns lib cc = (Inr (), cc\<lparr>compiled_patterns := compiled_of lib cc\<rparr>)"
proof -
  have "\<forall>ct \<in> set crud_types. list_of (cc\<lparr>compiled_patterns := Map.empty\<rparr>) ct \<noteq> None"
    using assms by (simp add: lists_present_iff)
  from compile_loop_ok [OF this] show ?thesis
    by (simp add: compile_patterns_def compiled_of_def fun_eq_iff)
qed

lemma compile_patterns_cache_irrelevant:
  "compile_patterns lib (cc\<lparr>compiled_patterns := c\<rparr>) = compile_patterns lib cc"
  by (simp add: compile_patterns_def)

lemma compile_patterns_frame:
  "snd (compile_patterns lib cc) = cc\<lparr>compiled_patterns := compiled_patterns (snd (compile_patterns lib cc))\<rparr>"
proof -
  let ?e = "cc\<lparr>compiled_patterns := Map.empty\<rparr>"
  have "snd (compile_loop lib crud_types ?e) = ?e\<lparr>compiled_patterns := compiled_patterns (snd (compile_loop lib crud_types ?e))\<rparr>"
    by (rule compile_loop_frame)
  then show ?thesis by (simp add: compile_patterns_def)
qed

lemma compile_patterns_exn: "fst (compile_patterns lib cc) = Inl e \<Longrightarrow> e = TypeError"
  by (simp add: compile_patterns_def compile_loop_exn)

lemma compiled_state_not_empty: "lists_present cc \<Longrightarrow> \<not> cache_empty (compiled_state lib cc)"
proof -
  assume "lists_present cc"
  then have "list_of cc Create \<noteq> None" using lists_present_iff by blast
  then have "compiled_patterns (compiled_state lib cc) Create \<noteq> None"
    by (simp add: compiled_state_def compiled_of_def)
  then show ?thesis by (auto simp: cache_empty_iff)
qed

lemma matches_pattern_compiled:
  assumes "lists_present cc"
  shows "matches_pattern lib (compiled_state lib cc) n ct = (Inr (approved_by lib cc n ct), compiled_state lib cc)"
proof -
  have ne: "\<not> cache_empty (compiled_state lib cc)" using assms by (rule compiled_state_not_empty)
  have f: "flag_of (compiled_state lib cc) ct = flag_of cc ct" by (simp add: compiled_state_def)
  have c: "compiled_patterns (compiled_state lib cc) ct = compiled_of lib cc ct" by (simp add: compiled_state_def)
  show ?thesis
    unfolding matches_pattern_def using ne
    by (simp add: f c approved_by_def Let_def split: option.splits)
qed

lemma matches_pattern_fresh:
  assumes "lists_present cc" and "cache_empty cc"
  shows "matches_pattern lib cc n ct = (Inr (approved_by lib cc n ct), compiled_state lib cc)"
proof -
  have cp: "compile_patterns lib cc = (Inr (), compiled_state lib cc)"
    using assms(1) by (simp add: compile_patterns_ok compiled_state_def)
  have f: "flag_of (compiled_state lib cc) ct = flag_of cc ct" by (simp add: compiled_state_def)
  have c: "compiled_patterns (compiled_state lib cc) ct = compiled_of lib cc ct" by (simp add: compiled_state_def)
  show ?thesis
    unfolding matches_pattern_def using assms(2)
    by (simp add: cp f c approved_by_def Let_def split: option.splits)
qed

lemma matches_pattern_in_sync:
  assumes "lists_present cc" and "in_sync lib cc st"
  shows "matches_pattern lib st n ct = (Inr (approved_by lib cc n ct), compiled_state lib cc)"
  using assms matches_pattern_fresh matches_pattern_compiled unfolding in_sync_def by blast

lemma in_sync_compiled: "in_sync lib cc (compiled_state lib cc)"
  by (simp add: in_sync_def)

lemma should_add_in_sync:
  assumes "lists_present cc" and "in_sync lib cc st"
  shows "fst (should_add lib st n cts) = Inr (list_ex (approved_by lib cc n) cts)
       \<and> in_sync lib cc (snd (should_add lib st n cts))"
  using assms(2)
proof (induction cts arbitrary: st)
  case Nil
  then show ?case by simp
next
  case (Cons ct cts)
  have m: "matches_pattern lib st n ct = (Inr (approved_by lib cc n ct), compiled_state lib cc)"
    using assms(1) Cons.prems by (rule matches_pattern_in_sync)
  show ?case
  proof (cases "approved_by lib cc n ct")
    case True
    with m show ?thesis by (simp add: in_sync_compiled)
  next
    case False
    with m Cons.IH [OF in_sync_compiled] show ?thesis by simp
  qed
qed

lemma matches_pattern_exn:
  assumes "fst (matches_pattern lib cc n ct) = Inl e"
  shows "e = TypeError"
proof -
  obtain r cc1 where cp: "(if cache_empty cc then compile_patterns lib cc else (Inr (), cc)) = (r, cc1)"
    by (cases "if cache_empty cc then compile_patterns lib cc else (Inr (), cc)")
  show ?thesis
  proof (cases r)
    case (Inl e')
    with cp assms have "e = e'" by (simp add: matches_pattern_def)
    moreover from cp Inl have "fst (compile_patterns lib cc) = Inl e'"
      by (cases "cache_empty cc") simp_all
    ultimately show ?thesis using compile_patterns_exn by blast
  next
    case (Inr u)
    with cp assms show ?thesis
      by (simp add: matches_pattern_def Let_def split: if_splits)
  qed
qed

lemma should_add_exn: "fst (should_add lib cc n cts) = Inl e \<Longrightarrow> e = TypeError"
proof (induction cts arbitrary: cc)
  case Nil
  then show ?case by simp
next
  case (Cons ct cts)
  obtain r cc1 where m: "matches_pattern lib cc n ct = (r, cc1)" by (cases "matches_pattern lib cc n ct")
  show ?case
  proof (cases r)
    case (Inl e')
    with m Cons.prems have "e = e'" by simp
    moreover from m Inl have "fst (matches_pattern lib cc n ct) = Inl e'" by simp
    ultimately show ?thesis using matches_pattern_exn by blast
  next
    case (Inr b)
    with m Cons.prems Cons.IH [of cc1] show ?thesis by (cases b) simp_all
  qed
qed

lemma matches_pattern_frame:
  "snd (matches_pattern lib cc n ct) = cc\<lparr>compiled_patterns := compiled_patterns (snd (matches_pattern lib cc n ct))\<rparr>"
proof (cases "cache_empty cc")
  case False
  then show ?thesis by (simp add: matches_pattern_def Let_def)
next
  case True
  obtain r cc1 where cp: "compile_patterns lib cc = (r, cc1)" by (cases "compile_patterns lib cc")
  have "snd (compile_patterns lib cc) = cc\<lparr>compiled_patterns := compiled_patterns (snd (compile_patterns lib cc))\<rparr>"
    by (rule compile_patterns_frame)
  with cp have fr: "cc1 = cc\<lparr>compiled_patterns := compiled_patterns cc1\<rparr>" by simp
  have "snd (matches_pattern lib cc n ct) = cc1"
    using True cp by (cases r) (simp_all add: matches_pattern_def Let_def)
  with fr show ?thesis by simp
qed

lemma compile_list_glob_mono: "set gs \<subseteq> set (glob (compile_list lib ps rs gs))"
proof (induction ps arbitrary: rs gs)
  case Nil
  show ?case by simp
next
  case (Cons p ps)
  have "set (gs @ [x]) \<subseteq> set (glob (compile_list lib ps rs (gs @ [x])))" for x
    by (rule Cons.IH)
  then have a: "set gs \<subseteq> set (glob (compile_list lib ps rs (gs @ [x])))" for x
    by force
  show ?case using a Cons.IH by (simp split: option.splits)
qed

lemma compile_list_fallback:
  assumes "P \<in> set ps" and "is_regex_pattern P" and "re_compile lib (regex_text P) = None"
  shows "regex_text P \<in> set (glob (compile_list lib ps rs gs))"
  using assms(1)
proof (induction ps arbitrary: rs gs)
  case Nil
  then show ?case by simp
next
  case (Cons p ps)
  show ?case
  proof (cases "p = P")
    case True
    have "regex_text P \<in> set (gs @ [regex_text P])" by simp
    then have "regex_text P \<in> set (glob (compile_list lib ps rs (gs @ [regex_text P])))"
      using compile_list_glob_mono by blast
    with True assms(2,3) show ?thesis by simp
  next
    case False
    with Cons.prems have "P \<in> set ps" by simp
    then show ?thesis using Cons.IH by (simp split: option.splits)
  qed
qed



text \<open>
  Claim C7. Compilation is idempotent: \<^verbatim>\<open>compile_patterns\<close> run on the state that
  \<^verbatim>\<open>compile_patterns\<close> has left gives the same outcome and the same state as the first
  run, and so does a run after any query; hence \<^verbatim>\<open>matches_pattern\<close> answers every name
  and bucket alike after one compilation and after two.
\<close>

theorem compile_patterns_idempotent:
  "compile_patterns lib (snd (compile_patterns lib cc)) = compile_patterns lib cc
   \<and> compile_patterns lib (snd (matches_pattern lib cc N' B')) = compile_patterns lib cc
   \<and> (\<forall>N B. matches_pattern lib (snd (compile_patterns lib (snd (compile_patterns lib cc)))) N B
              = matches_pattern lib (snd (compile_patterns lib cc)) N B)"
proof -
  have one: "compile_patterns lib (snd (compile_patterns lib cc)) = compile_patterns lib cc"
    by (metis compile_patterns_frame compile_patterns_cache_irrelevant)
  have two: "compile_patterns lib (snd (matches_pattern lib cc N' B')) = compile_patterns lib cc"
    by (metis matches_pattern_frame compile_patterns_cache_irrelevant)
  from one two show ?thesis by simp
qed

lemma marked_regex_text: "regex_text marked_pattern = ''*_thing''"
  by (simp add: marked_pattern_def regex_text_def has_r_marker_def)

lemma marked_is_regex: "is_regex_pattern marked_pattern"
  by (simp add: marked_pattern_def is_regex_pattern_def has_r_marker_def)




section \<open>The operation builder\<close>

lemma sdk_functions_getattr:
  "n \<in> set (sdk_functions obj) \<Longrightarrow> \<exists>a. getattr obj n = Inr a \<and> callable a"
  by (cases "getattr obj n") (auto simp: sdk_functions_def)

lemma build_loop_ok:
  assumes "lists_present cc"
  shows "in_sync lib cc st \<Longrightarrow> \<forall>n \<in> set ns. documented obj n \<Longrightarrow>
         fst (build_loop lib h obj ns ops st) =
           Inr (ops @ map (operation_for h obj) (filter (\<lambda>n. list_ex (approved_by lib cc n) crud_types) ns))
         \<and> in_sync lib cc (snd (build_loop lib h obj ns ops st))"
proof (induction ns arbitrary: ops st)
  case Nil
  then show ?case by simp
next
  case (Cons n ns)
  from Cons.prems(2) have "documented obj n" by simp
  then obtain a t where a: "getattr obj n = Inr a" and t: "doc a = Some t"
    by (cases "getattr obj n") (auto simp: documented_def)
  have op: "AutoTool_init h n (doc a) = Inr (operation_for h obj n)"
    using a t by (simp add: AutoTool_init_def operation_for_def)
  obtain cc1 where sa: "should_add lib st n crud_types = (Inr (list_ex (approved_by lib cc n) crud_types), cc1)"
    and sync: "in_sync lib cc cc1"
    using should_add_in_sync [OF assms Cons.prems(1), of n crud_types]
    by (cases "should_add lib st n crud_types") auto
  from Cons.prems(2) have rest: "\<forall>n \<in> set ns. documented obj n" by simp
  show ?case
    using a op sa Cons.IH [OF sync rest] by simp
qed

lemma build_loop_undocumented:
  assumes "lists_present cc"
  shows "in_sync lib cc st \<Longrightarrow> \<forall>n \<in> set ns. \<exists>a. getattr obj n = Inr a \<Longrightarrow>
         \<exists>n \<in> set ns. \<not> documented obj n \<Longrightarrow>
         fst (build_loop lib h obj ns ops st) = Inl ValidationError"
proof (induction ns arbitrary: ops st)
  case Nil
  then show ?case by simp
next
  case (Cons n ns)
  from Cons.prems(2) obtain a where a: "getattr obj n = Inr a" by auto
  show ?case
  proof (cases "doc a")
    case None
    with a show ?thesis by (simp add: AutoTool_init_def)
  next
    case (Some t)
    with a have "documented obj n" by (simp add: documented_def)
    with Cons.prems(3) have ex: "\<exists>n \<in> set ns. \<not> documented obj n" by auto
    from Cons.prems(2) have all: "\<forall>n \<in> set ns. \<exists>a. getattr obj n = Inr a" by simp
    obtain cc1 where sa: "should_add lib st n crud_types = (Inr (list_ex (approved_by lib cc n) crud_types), cc1)"
      and sync: "in_sync lib cc cc1"
      using should_add_in_sync [OF assms Cons.prems(1), of n crud_types]
      by (cases "should_add lib st n crud_types") auto
    show ?thesis
      using a Some sa Cons.IH [OF sync all ex] by (simp add: AutoTool_init_def)
  qed
qed

lemma build_loop_exn:
  "\<forall>n \<in> set ns. \<exists>a. getattr obj n = Inr a \<Longrightarrow>
   fst (build_loop lib h obj ns ops st) = Inl e \<Longrightarrow> e = TypeError \<or> e = ValidationError"
proof (induction ns arbitrary: ops st)
  case Nil
  then show ?case by simp
next
  case (Cons n ns)
  from Cons.prems(1) obtain a where a: "getattr obj n = Inr a" by auto
  from Cons.prems(1) have all: "\<forall>n \<in> set ns. \<exists>a. getattr obj n = Inr a" by simp
  show ?case
  proof (cases "doc a")
    case None
    with a Cons.prems(2) show ?thesis by (simp add: AutoTool_init_def)
  next
    case (Some t)
    obtain r cc1 where sa: "should_add lib st n crud_types = (r, cc1)"
      by (cases "should_add lib st n crud_types")
    show ?thesis
    proof (cases r)
      case (Inl e')
      with sa have "fst (should_add lib st n crud_types) = Inl e'" by simp
      then have "e' = TypeError" by (rule should_add_exn)
      moreover from a Some sa Inl Cons.prems(2) have "e = e'" by (simp add: AutoTool_init_def)
      ultimately show ?thesis by simp
    next
      case (Inr b)
      with a Some sa Cons.prems(2) Cons.IH [OF all] show ?thesis
        by (simp add: AutoTool_init_def)
    qed
  qed
qed

lemma getitem_exn: "getitem h k = Inl e \<Longrightarrow> e = TypeError \<or> e = KeyError"
  by (cases h) (auto split: option.splits)

lemma should_add_fresh:
  assumes "lists_present cc" and "cache_empty cc"
  shows "fst (should_add lib cc n crud_types) = Inr (list_ex (approved_by lib cc n) crud_types)"
proof -
  have "in_sync lib cc cc" using assms(2) by (simp add: in_sync_def)
  with assms(1) show ?thesis using should_add_in_sync by blast
qed

lemma build_operations_ok:
  assumes "lists_present cc" and "cache_empty cc" and "getitem h ''client'' = Inr obj"
    and "\<forall>n \<in> set (sdk_functions obj). documented obj n"
  shows "fst (build_operations lib h cc) =
           Inr (map (operation_for h obj)
                  (filter (\<lambda>n. list_ex (approved_by lib cc n) crud_types) (sdk_functions obj)))"
proof -
  have "in_sync lib cc cc" using assms(2) by (simp add: in_sync_def)
  from build_loop_ok [OF assms(1) this assms(4), of h "[]"] assms(3)
  show ?thesis by (simp add: build_operations_def)
qed

lemma build_operations_undocumented:
  assumes "lists_present cc" and "cache_empty cc" and "getitem h ''client'' = Inr obj"
    and "\<exists>n \<in> set (sdk_functions obj). \<not> documented obj n"
  shows "fst (build_operations lib h cc) = Inl ValidationError"
proof -
  have s: "in_sync lib cc cc" using assms(2) by (simp add: in_sync_def)
  have g: "\<forall>n \<in> set (sdk_functions obj). \<exists>a. getattr obj n = Inr a"
    using sdk_functions_getattr by blast
  from build_loop_undocumented [OF assms(1) s g assms(4), of h "[]"] assms(3)
  show ?thesis by (simp add: build_operations_def)
qed

lemma build_operations_exn:
  assumes "fst (build_operations lib h cc) = Inl e"
  shows "e = TypeError \<or> e = KeyError \<or> e = ValidationError"
proof (cases "getitem h ''client''")
  case (Inl e')
  with assms have "e = e'" by (simp add: build_operations_def)
  with Inl getitem_exn show ?thesis by blast
next
  case (Inr obj)
  have g: "\<forall>n \<in> set (sdk_functions obj). \<exists>a. getattr obj n = Inr a"
    using sdk_functions_getattr by blast
  from Inr assms have "fst (build_loop lib h obj (sdk_functions obj) [] cc) = Inl e"
    by (simp add: build_operations_def)
  with build_loop_exn [OF g] show ?thesis by blast
qed

lemma init_fst:
  "AutoToolWrapper_init lib h cc =
     (case fst (build_operations lib h cc) of
        Inl e \<Rightarrow> Inl e
      | Inr ops \<Rightarrow> Inr \<lparr> wrapper_client = h, operations = ops,
                         crud_controls = snd (build_operations lib h cc) \<rparr>)"
  by (cases "build_operations lib h cc") (simp add: AutoToolWrapper_init_def split: sum.splits)




lemma fnmatch_pat_literal:
  "CHR ''*'' \<notin> set p \<Longrightarrow> CHR ''?'' \<notin> set p \<Longrightarrow> CHR ''['' \<notin> set p \<Longrightarrow>
   fnmatch_pat p s \<longleftrightarrow> s = p"
proof (induction p arbitrary: s)
  case Nil
  show ?case by simp
next
  case (Cons c p)
  then have ih: "fnmatch_pat p s' \<longleftrightarrow> s' = p" for s' by simp
  from Cons.prems have "c \<noteq> CHR ''*''" "c \<noteq> CHR ''?''" "c \<noteq> CHR ''[''" by auto
  then show ?case by (cases s) (auto simp: ih)
qed

lemma fnmatch_get_thing: "fnmatch n ''get_thing'' \<longleftrightarrow> n = ''get_thing''"
  unfolding fnmatch_def by (rule fnmatch_pat_literal) simp_all

lemma get_thing_not_regex: "\<not> is_regex_pattern ''get_thing''"
  by (simp add: is_regex_pattern_def has_r_marker_def regex_chars_def)

lemma filter_eq_singleton: "distinct xs \<Longrightarrow> x \<in> set xs \<Longrightarrow> filter (\<lambda>n. n = x) xs = [x]"
  by (induction xs) (auto simp: filter_empty_conv)

lemma approved_only_get_thing:
  assumes "read cc = Some True" and "read_list cc = Some [''get_thing'']"
    and "\<not> truthy (create cc)" and "\<not> truthy (update cc)" and "\<not> truthy (delete cc)"
  shows "list_ex (approved_by lib cc n) crud_types \<longleftrightarrow> n = ''get_thing''"
  using assms get_thing_not_regex
  by (simp add: crud_types_def approved_by_def compiled_of_def fnmatch_get_thing)

text \<open>
  Claim C8. With read enabled, \<^verbatim>\<open>read_list = ["get_thing"]\<close> and the create, update and
  delete buckets disabled, the wrapper built for a client that has a callable member
  \<^verbatim>\<open>get_thing\<close> (and any other members, each public callable one with its documentation
  text) holds exactly one Operation, named \<^verbatim>\<open>get_thing\<close>: the pattern has no regex
  metacharacter, is kept as a glob and matches the whole name only.
\<close>

theorem only_get_thing:
  assumes "read cc = Some True" and "read_list cc = Some [''get_thing'']"
    and "\<not> truthy (create cc)" and "\<not> truthy (update cc)" and "\<not> truthy (delete cc)"
    and "lists_present cc" and "cache_empty cc"
    and "getitem h ''client'' = Inr obj" and "distinct (dir obj)"
    and "getattr obj ''get_thing'' = Inr a" and "callable a"
    and "\<forall>n \<in> set (sdk_functions obj). documented obj n"
  shows "\<exists>w. AutoToolWrapper_init lib h cc = Inr w
            \<and> operations w = [operation_for h obj ''get_thing'']
            \<and> map name (operations w) = [''get_thing'']"
proof -
  have mem: "''get_thing'' \<in> set (sdk_functions obj)"
    using assms(10,11) by (auto simp: sdk_functions_def dir_def getattr_def split: option.splits dest: map_of_SomeD intro: rev_image_eqI)
  have dist: "distinct (sdk_functions obj)"
    using assms(9) by (simp add: sdk_functions_def)
  have "filter (\<lambda>n. list_ex (approved_by lib cc n) crud_types) (sdk_functions obj)
          = filter (\<lambda>n. n = ''get_thing'') (sdk_functions obj)"
    using approved_only_get_thing [OF assms(1-5)] by simp
  also have "\<dots> = [''get_thing'']" using dist mem by (rule filter_eq_singleton)
  finally have "fst (build_operations lib h cc) = Inr [operation_for h obj ''get_thing'']"
    using build_operations_ok [OF assms(6,7,8,12), of lib] by simp
  then show ?thesis by (simp add: init_fst operation_for_def)
qed

lemma FakeSdk_functions:
  "sdk_functions FakeSdk =
     [''confabulate_thing'', ''create_thing'', ''delete_thing'', ''get_thing'', ''get_things'',
      ''get_things_generator'', ''post_thing'', ''put_thing'', ''update_thing'']"
  by (simp add: sdk_functions_def dir_def getattr_def FakeSdk_def plain_value_def thing_method_def
      initializer_def get_things_def get_things_generator_def)

theorem only_get_thing_witness:
  "\<exists>w. AutoToolWrapper_init sample_lib fake_client list_crud_controls = Inr w
        \<and> operations w = [\<lparr> client = fake_client, name = ''get_thing'', description = ''Gets Thing'' \<rparr>]
        \<and> map name (operations w) = [''get_thing'']"
proof -
  let ?cc = "list_crud_controls :: string CrudControls"
  have 1: "read ?cc = Some True" "read_list ?cc = Some [''get_thing'']"
    "\<not> truthy (create ?cc)" "\<not> truthy (update ?cc)" "\<not> truthy (delete ?cc)"
    by (simp_all add: list_crud_controls_def)
  have 2: "lists_present ?cc"
    by (simp add: lists_present_def crud_types_def list_crud_controls_def default_controls_def)
  have 3: "cache_empty ?cc"
    by (simp add: cache_empty_def crud_types_def list_crud_controls_def default_controls_def)
  have 4: "getitem fake_client ''client'' = Inr FakeSdk" by (simp add: fake_client_def)
  have 5: "distinct (dir FakeSdk)" by (simp add: dir_def FakeSdk_def)
  have 6: "getattr FakeSdk ''get_thing'' = Inr (thing_method ''Gets Thing'')"
    by (simp add: getattr_def FakeSdk_def)
  have 7: "callable (thing_method ''Gets Thing'')" by (simp add: thing_method_def)
  have 8: "\<forall>n \<in> set (sdk_functions FakeSdk). documented FakeSdk n"
    unfolding FakeSdk_functions
    by (simp add: documented_def getattr_def FakeSdk_def thing_method_def get_things_def get_things_generator_def)
  have 9: "operation_for fake_client FakeSdk ''get_thing''
             = \<lparr> client = fake_client, name = ''get_thing'', description = ''Gets Thing'' \<rparr>"
    by (simp add: operation_for_def 6 thing_method_def)
  from only_get_thing [OF 1 2 3 4 5 6 7 8, of sample_lib] 9 show ?thesis by simp
qed

lemma list_crud_controls_present: "lists_present (list_crud_controls :: 'rx CrudControls)"
  by (simp add: lists_present_def crud_types_def list_crud_controls_def default_controls_def)

lemma list_crud_controls_fresh: "cache_empty (list_crud_controls :: 'rx CrudControls)"
  by (simp add: cache_empty_def crud_types_def list_crud_controls_def default_controls_def)

lemma FakeSdk_documented: "\<forall>n \<in> set (sdk_functions FakeSdk). documented FakeSdk n"
  unfolding FakeSdk_functions
  by (simp add: documented_def getattr_def FakeSdk_def thing_method_def get_things_def
      get_things_generator_def)

lemma undocumented_sdk_functions: "sdk_functions undocumented_sdk = [''get_thing'']"
  by (simp add: sdk_functions_def dir_def getattr_def undocumented_sdk_def thing_method_def)

lemma undocumented_sdk_not_documented: "\<not> documented undocumented_sdk ''get_thing''"
  by (simp add: documented_def getattr_def undocumented_sdk_def)

lemma list_controls_approve_get_thing:
  "fst (should_add lib list_crud_controls ''get_thing'' crud_types) = Inr True"
proof -
  have "list_ex (approved_by lib list_crud_controls ''get_thing'') crud_types"
    by (subst approved_only_get_thing) (simp_all add: list_crud_controls_def)
  then show ?thesis
    using should_add_fresh [OF list_crud_controls_present list_crud_controls_fresh, of lib "''get_thing''"]
    by simp
qed

text \<open>
  Claim C10, as stated, fails: the member \<^verbatim>\<open>get_thing\<close> below is callable, public and
  approved by the read bucket, it has no documentation text, and construction of the
  wrapper fails with a validation error instead of giving an Operation without
  documentation.
\<close>

theorem undocumented_member_fails_construction:
  "sdk_functions undocumented_sdk = [''get_thing'']
   \<and> fst (should_add sample_lib list_crud_controls ''get_thing'' crud_types) = Inr True
   \<and> AutoToolWrapper_init sample_lib (Holder [(''client'', undocumented_sdk)]) list_crud_controls
       = Inl ValidationError"
proof -
  have g: "getitem (Holder [(''client'', undocumented_sdk)]) ''client'' = Inr undocumented_sdk"
    by simp
  have "\<exists>n \<in> set (sdk_functions undocumented_sdk). \<not> documented undocumented_sdk n"
    using undocumented_sdk_functions undocumented_sdk_not_documented by simp
  from build_operations_undocumented [OF list_crud_controls_present list_crud_controls_fresh g this, of sample_lib]
  have "AutoToolWrapper_init sample_lib (Holder [(''client'', undocumented_sdk)]) list_crud_controls
       = Inl ValidationError"
    by (simp add: init_fst)
  with undocumented_sdk_functions list_controls_approve_get_thing [of sample_lib]
  show ?thesis by simp
qed

text \<open>
  Claim C10, amended. The description of an AutoTool is a required string. When every public
  callable member of the client has documentation text, the wrapper holds one Operation for
  each such member that some bucket approves, in the order of \<^verbatim>\<open>dir()\<close>, and the
  description of the Operation is the documentation text of the member. When some public
  callable member has no documentation text, construction fails with a validation error.
  (The pattern lists are lists and the cache is not yet compiled.)
\<close>

theorem operations_need_documentation:
  assumes "lists_present cc" and "cache_empty cc" and "getitem h ''client'' = Inr obj"
  shows "((\<forall>n \<in> set (sdk_functions obj). documented obj n) \<longrightarrow>
            (\<exists>w. AutoToolWrapper_init lib h cc = Inr w
                 \<and> operations w =
                     map (operation_for h obj)
                       (filter (\<lambda>n. fst (should_add lib cc n crud_types) = Inr True)
                          (sdk_functions obj))))
       \<and> ((\<exists>n \<in> set (sdk_functions obj). \<not> documented obj n) \<longrightarrow>
            AutoToolWrapper_init lib h cc = Inl ValidationError)
       \<and> (\<forall>n a text. getattr obj n = Inr a \<and> doc a = Some text \<longrightarrow>
            operation_for h obj n = \<lparr> client = h, name = n, description = text \<rparr>)"
proof -
  have sa: "(fst (should_add lib cc n crud_types) = Inr True) = list_ex (approved_by lib cc n) crud_types" for n
    using should_add_fresh [OF assms(1,2), of lib n] by simp
  have one: "\<exists>w. AutoToolWrapper_init lib h cc = Inr w
                 \<and> operations w =
                     map (operation_for h obj)
                       (filter (\<lambda>n. fst (should_add lib cc n crud_types) = Inr True)
                          (sdk_functions obj))"
    if "\<forall>n \<in> set (sdk_functions obj). documented obj n"
    using build_operations_ok [OF assms that, of lib] by (simp add: init_fst sa)
  have two: "AutoToolWrapper_init lib h cc = Inl ValidationError"
    if "\<exists>n \<in> set (sdk_functions obj). \<not> documented obj n"
    using build_operations_undocumented [OF assms that, of lib] by (simp add: init_fst)
  have three: "operation_for h obj n = \<lparr> client = h, name = n, description = t \<rparr>"
    if "getattr obj n = Inr a" and "doc a = Some t" for n a t
    using that by (simp add: operation_for_def)
  from one two three show ?thesis by blast
qed

theorem operations_need_documentation_witness:
  "(\<exists>w. AutoToolWrapper_init sample_lib fake_client list_crud_controls = Inr w
        \<and> operations w =
            map (operation_for fake_client FakeSdk)
              (filter (\<lambda>n. fst (should_add sample_lib list_crud_controls n crud_types) = Inr True)
                 (sdk_functions FakeSdk)))
   \<and> AutoToolWrapper_init sample_lib (Holder [(''client'', undocumented_sdk)]) list_crud_controls
       = Inl ValidationError"
proof -
  have g: "getitem fake_client ''client'' = Inr FakeSdk" by (simp add: fake_client_def)
  have u: "getitem (Holder [(''client'', undocumented_sdk)]) ''client'' = Inr undocumented_sdk"
    by simp
  have n: "\<exists>n \<in> set (sdk_functions undocumented_sdk). \<not> documented undocumented_sdk n"
    using undocumented_sdk_functions undocumented_sdk_not_documented by simp
  from operations_need_documentation [OF list_crud_controls_present list_crud_controls_fresh g, of sample_lib]
       operations_need_documentation [OF list_crud_controls_present list_crud_controls_fresh u, of sample_lib]
       FakeSdk_documented n
  show ?thesis by blast
qed

section \<open>The invocation adapter\<close>

lemma run_body_resolved:
  assumes "getitem (client tool) ''client'' = Inr obj" and "getattr obj (name tool) = Inr func"
  shows "run_body lib tool tool_input args kwargs =
           (case call func args (normalize_input lib tool_input) kwargs of
              Inl e \<Rightarrow> Inl e
            | Inr result \<Rightarrow>
                (case normalize_result result of
                   Inl e \<Rightarrow> Inl e
                 | Inr result' \<Rightarrow> Inr (json_dumps lib result')))"
  using assms by (simp add: run_body_def Let_def)

lemma fake_tool_fields [simp]: "client (fake_tool n) = fake_client" "name (fake_tool n) = n"
  by (simp_all add: fake_tool_def operation_for_def)



text \<open>
  Claim C2 fails on the code for \<^verbatim>\<open>AttributeError\<close>: the handler encloses the call, so
  an \<^verbatim>\<open>AttributeError\<close> raised in the body of a member that exists is caught and
  reported as an invalid function name.
\<close>

theorem attribute_error_of_member_is_caught:
  "getattr [(''get_thing'', raising_method AttributeError)] ''get_thing''
     = Inr (raising_method AttributeError)
   \<and> run sample_lib (raising_tool AttributeError) PNone [] []
     = Inr ''Invalid function name: get_thing''"
  by (simp add: run_def run_body_def getattr_def raising_tool_def raising_method_def
      normalize_input_def call_def)

text \<open>What the handler lets through: an exception of the member that is not an
  \<^verbatim>\<open>AttributeError\<close> leaves the invocation.\<close>

lemma member_exception_outcome:
  assumes "getitem (client tool) ''client'' = Inr obj" and "getattr obj (name tool) = Inr func"
    and "call func args (normalize_input lib tool_input) kwargs = Inl e"
  shows "run lib tool tool_input args kwargs =
           (if e = AttributeError then Inr (''Invalid function name: '' @ name tool) else Inl e)"
  using assms by (cases e) (simp_all add: run_def run_body_resolved)

lemma call_mapping:
  assumes "callable func"
  shows "call func args (PDict d) kwargs =
           (if set (map fst d) \<inter> set (map fst kwargs) = {} then body func args (d @ kwargs)
            else Inl TypeError)"
  using assms by (auto simp: call_def list_ex_iff)

lemma fake_tool_getitem: "getitem (client (fake_tool n)) ''client'' = Inr FakeSdk"
  by (simp add: fake_client_def)

text \<open>
  Claim C1, as stated, fails: when the input mapping and the extra named arguments both give
  \<^verbatim>\<open>thing_id\<close>, the call \<^verbatim>\<open>func(*args, **params, **kwargs)\<close> raises
  \<^verbatim>\<open>TypeError\<close>; the member is not called and no value wins.
\<close>

theorem shared_keyword_raises:
  "run sample_lib (fake_tool ''get_thing'') (PDict [(''thing_id'', PInt 1)]) []
       [(''thing_id'', PInt 2)]
     = Inl TypeError"
  by (simp add: run_def run_body_def getattr_def fake_client_def FakeSdk_def normalize_input_def
      call_def)

text \<open>
  Claim C1, amended. Let the member resolve and be callable and let the input be normalized to
  a mapping. When that mapping and the extra named arguments share no key, the member is
  called with the positional arguments and with the named arguments of both, those of the
  input first; the adapter then finishes with what the member gives. When they share a key,
  the call itself raises \<^verbatim>\<open>TypeError\<close>, whatever the member is, and the exception leaves
  the invocation.
\<close>

theorem named_arguments_are_joined:
  assumes "getitem (client tool) ''client'' = Inr obj" and "getattr obj (name tool) = Inr func"
    and "callable func" and "normalize_input lib tool_input = PDict d"
  shows "(set (map fst d) \<inter> set (map fst kwargs) = {} \<longrightarrow>
            run lib tool tool_input args kwargs =
              (case (case body func args (d @ kwargs) of
                       Inl e \<Rightarrow> Inl e
                     | Inr result \<Rightarrow>
                         (case normalize_result result of
                            Inl e \<Rightarrow> Inl e
                          | Inr result' \<Rightarrow> Inr (json_dumps lib result'))) of
                 Inl AttributeError \<Rightarrow> Inr (''Invalid function name: '' @ name tool)
               | r \<Rightarrow> r))
       \<and> (set (map fst d) \<inter> set (map fst kwargs) \<noteq> {} \<longrightarrow>
            run lib tool tool_input args kwargs = Inl TypeError)"
proof -
  have rb: "run_body lib tool tool_input args kwargs =
           (case call func args (PDict d) kwargs of
              Inl e \<Rightarrow> Inl e
            | Inr result \<Rightarrow>
                (case normalize_result result of
                   Inl e \<Rightarrow> Inl e
                 | Inr result' \<Rightarrow> Inr (json_dumps lib result')))"
    using run_body_resolved [OF assms(1,2), of lib tool_input args kwargs] assms(4) by simp
  have one: "run lib tool tool_input args kwargs =
              (case (case body func args (d @ kwargs) of
                       Inl e \<Rightarrow> Inl e
                     | Inr result \<Rightarrow>
                         (case normalize_result result of
                            Inl e \<Rightarrow> Inl e
                          | Inr result' \<Rightarrow> Inr (json_dumps lib result'))) of
                 Inl AttributeError \<Rightarrow> Inr (''Invalid function name: '' @ name tool)
               | r \<Rightarrow> r)"
    if "set (map fst d) \<inter> set (map fst kwargs) = {}"
    using that by (simp add: run_def rb call_mapping [OF assms(3)])
  have two: "run lib tool tool_input args kwargs = Inl TypeError"
    if "set (map fst d) \<inter> set (map fst kwargs) \<noteq> {}"
    using that by (simp add: run_def rb call_mapping [OF assms(3)])
  from one two show ?thesis by blast
qed

theorem named_arguments_are_joined_witness:
  "run sample_lib (fake_tool ''create_thing'') PNone [] [(''thing_id'', PInt 123)]
     = Inr (sample_dumps (dummy_return (PInt 123)))
   \<and> run sample_lib (fake_tool ''create_thing'') (PDict [(''thing_id'', PInt 1)]) []
        [(''thing_id'', PInt 123)]
     = Inl TypeError"
proof -
  have a: "getattr FakeSdk (name (fake_tool ''create_thing'')) = Inr (thing_method ''Creates Thing'')"
    by (simp add: getattr_def FakeSdk_def)
  have c: "callable (thing_method ''Creates Thing'')" by (simp add: thing_method_def)
  have n1: "normalize_input sample_lib PNone = PDict []" by (simp add: normalize_input_def)
  have n2: "normalize_input sample_lib (PDict [(''thing_id'', PInt 1)]) = PDict [(''thing_id'', PInt 1)]"
    by (simp add: normalize_input_def)
  have b: "body (thing_method ''Creates Thing'') [] [(''thing_id'', PInt 123)] = Inr (dummy_return (PInt 123))"
    by (simp add: thing_method_def bind_params_def)
  have j: "json_dumps sample_lib = sample_dumps" by (simp add: sample_lib_def)
  from named_arguments_are_joined [OF fake_tool_getitem a c n1, of "[(''thing_id'', PInt 123)]" "[]"]
  have one: "run sample_lib (fake_tool ''create_thing'') PNone [] [(''thing_id'', PInt 123)]
     = Inr (sample_dumps (dummy_return (PInt 123)))"
    by (simp add: b j dummy_return_def)
  from named_arguments_are_joined [OF fake_tool_getitem a c n2, of "[(''thing_id'', PInt 123)]" "[]"]
  have two: "run sample_lib (fake_tool ''create_thing'') (PDict [(''thing_id'', PInt 1)]) []
        [(''thing_id'', PInt 123)] = Inl TypeError"
    by simp
  from one two show ?thesis by simp
qed


lemma generator_input:
  "sample_loads (sample_dumps (PDict [(''start_id'', PInt 100), (''count'', PInt 3)]))
     = Some (PDict [(''start_id'', PInt 100), (''count'', PInt 3)])"
  by code_simp

lemma generator_output:
  "sample_loads (sample_dumps (PList
      [PDict [(''status'', PInt 200), (''response'', PDict [(''id'', PInt 100)])],
       PDict [(''status'', PInt 200), (''response'', PDict [(''id'', PInt 101)])],
       PDict [(''status'', PInt 200), (''response'', PDict [(''id'', PInt 102)])]]))
   = Some (PList
      [PDict [(''status'', PInt 200), (''response'', PDict [(''id'', PInt 100)])],
       PDict [(''status'', PInt 200), (''response'', PDict [(''id'', PInt 101)])],
       PDict [(''status'', PInt 200), (''response'', PDict [(''id'', PInt 102)])]])"
  by code_simp

lemma generator_body:
  "body get_things_generator [] [(''start_id'', PInt 100), (''count'', PInt 3)]
     = Inr (PIter
         [PDict [(''status'', PInt 200), (''response'', PDict [(''id'', PInt 100)])],
          PDict [(''status'', PInt 200), (''response'', PDict [(''id'', PInt 101)])],
          PDict [(''status'', PInt 200), (''response'', PDict [(''id'', PInt 102)])]] None)"
  by code_simp


end
